theory Spec2Isabelle
  imports Complex_Main
begin

section \<open>Tables as the dashboard reads them\<close>

text \<open>
  \<^verbatim>\<open>stock_dashboard.py\<close> works on one pandas DataFrame, the result of
  \<^verbatim>\<open>pd.read_csv\<close>. A cell of a parsed CSV is a string, a number or missing
  (\<^verbatim>\<open>NaN\<close>). A number is the real number that the int64 or float64 value is;
  comparisons of such values are exact. Where the script or the library computes with
  floating point (the mean of the price column) or converts between the two number
  types (the rows that \<^verbatim>\<open>iterrows\<close> hands out), the operation is a parameter of
  the model: nothing is assumed about its rounding.

  A frame keeps its column names apart from its rows, so that a table with a header and
  no rows still has columns. A row is an association list from column name to cell; a
  column the row does not list reads as missing, as \<^verbatim>\<open>read_csv\<close> pads short lines.
\<close>

datatype cell = Str string | Num real | NaN

type_synonym row = "(string \<times> cell) list"

record frame =
  columns :: "string list"
  rows :: "row list"

text \<open>
  The exceptions that can leave the modelled code, by their Python class. The script
  defines no exception class of its own and raises nothing itself; every one of these
  comes from pandas or from opening the file. \<open>ValueError\<close> is what
  \<^verbatim>\<open>idxmax\<close> raises on a column that has no number to compare, be it empty or
  all missing.
\<close>

datatype error =
    FileNotFoundError
  | KeyError string
  | TypeError
  | ValueError

definition cell_of :: "row \<Rightarrow> string \<Rightarrow> cell" where
  "cell_of r c = (case map_of r c of Some v \<Rightarrow> v | None \<Rightarrow> NaN)"

text \<open>\<^verbatim>\<open>data[c]\<close>: the column as a list of cells in row order, or \<^verbatim>\<open>KeyError\<close>.\<close>

definition getitem :: "frame \<Rightarrow> string \<Rightarrow> error + cell list" where
  "getitem df c =
     (if c \<in> set (columns df) then Inr (map (\<lambda>r. cell_of r c) (rows df))
      else Inl (KeyError c))"

text \<open>\<^verbatim>\<open>row[c]\<close> for a row handed out by \<^verbatim>\<open>data.iterrows()\<close>.\<close>

definition row_getitem :: "string list \<Rightarrow> row \<Rightarrow> string \<Rightarrow> error + cell" where
  "row_getitem cols r c =
     (if c \<in> set cols then Inr (cell_of r c) else Inl (KeyError c))"

text \<open>\<^verbatim>\<open>series == s\<close>: the boolean mask; only a string cell equal to \<open>s\<close> compares equal.\<close>

definition eq_mask :: "cell list \<Rightarrow> string \<Rightarrow> bool list" where
  "eq_mask col s = map (\<lambda>c. c = Str s) col"

text \<open>\<^verbatim>\<open>data[mask]\<close>: a new frame holding the rows whose mask entry is true.\<close>

definition bool_index :: "frame \<Rightarrow> bool list \<Rightarrow> frame" where
  "bool_index df m = df\<lparr>rows := map fst (filter snd (zip (rows df) m))\<rparr>"

definition len_frame :: "frame \<Rightarrow> nat" where
  "len_frame df = length (rows df)"

subsection \<open>Reductions of a column\<close>

fun is_str :: "cell \<Rightarrow> bool" where
  "is_str (Str s) = True"
| "is_str _ = False"

text \<open>The numeric entries of a column; the reductions skip missing entries (\<^verbatim>\<open>skipna\<close>).\<close>

fun numbers :: "cell list \<Rightarrow> real list" where
  "numbers [] = []"
| "numbers (Num x # cs) = x # numbers cs"
| "numbers (_ # cs) = numbers cs"

text \<open>
  \<^verbatim>\<open>Series.mean()\<close>. A column holding strings has dtype object and the reduction
  raises \<^verbatim>\<open>TypeError\<close>. Otherwise the numeric entries are summed and divided by
  their number in float64 arithmetic, which rounds and can overflow. What that
  arithmetic makes of the entries is the parameter \<open>fmean\<close> (for no entries it is
  \<^verbatim>\<open>NaN\<close>); the type of its results is left open.
\<close>

definition mean :: "(real list \<Rightarrow> 'a) \<Rightarrow> cell list \<Rightarrow> error + 'a" where
  "mean fmean col =
     (if list_ex is_str col then Inl TypeError else Inr (fmean (numbers col)))"

text \<open>
  \<^verbatim>\<open>Series.max()\<close>. In \<^verbatim>\<open>main\<close> it is only reached after \<^verbatim>\<open>mean\<close> of the same
  column returned, hence on a column without strings.
\<close>

definition max_series :: "cell list \<Rightarrow> error + cell" where
  "max_series col =
     (if list_ex is_str col then Inl TypeError
      else case numbers col of
             [] \<Rightarrow> Inr NaN
           | x # xs \<Rightarrow> Inr (Num (fold max xs x)))"

text \<open>
  \<^verbatim>\<open>Series.idxmax()\<close> scans the column from the front and keeps the position of the
  largest entry seen so far, moving on only to a strictly larger one.
\<close>

fun argmax_from :: "nat \<Rightarrow> cell list \<Rightarrow> (nat \<times> real) option \<Rightarrow> (nat \<times> real) option" where
  "argmax_from i [] best = best"
| "argmax_from i (Num x # cs) best =
     argmax_from (Suc i) cs
       (case best of
          None \<Rightarrow> Some (i, x)
        | Some (j, y) \<Rightarrow> if y < x then Some (i, x) else Some (j, y))"
| "argmax_from i (_ # cs) best = argmax_from (Suc i) cs best"

definition idxmax :: "cell list \<Rightarrow> error + nat" where
  "idxmax col =
     (if list_ex is_str col then Inl TypeError
      else case argmax_from 0 col None of
             Some (i, m) \<Rightarrow> Inr i
           | None \<Rightarrow> Inl ValueError)"

text \<open>\<^verbatim>\<open>data.loc[i, c]\<close> on the default index \<open>0, 1, ...\<close> of \<^verbatim>\<open>read_csv\<close>.\<close>

definition loc :: "frame \<Rightarrow> nat \<Rightarrow> string \<Rightarrow> error + cell" where
  "loc df i c =
     (if c \<notin> set (columns df) then Inl (KeyError c)
      else if i < length (rows df) then Inr (cell_of (rows df ! i) c)
      else Inl (KeyError ''index''))"

section \<open>The KPI row: the portfolio summary\<close>

text \<open>
  Lines 69 to 106 of \<^verbatim>\<open>main\<close> compute the four figures of the KPI row, in this
  order: the number of companies (the literal 5 in the card's HTML), the number of rows
  recommended for a split, the average price, and the highest price with its ticker.
\<close>

record 'a summary =
  company_count :: nat
  recommend_count :: nat
  avg_price :: 'a
  max_price :: cell
  max_ticker :: cell

definition recommend_count_of :: "frame \<Rightarrow> error + nat" where
  "recommend_count_of df =
     (case getitem df ''Split_Recommendation'' of
        Inl e \<Rightarrow> Inl e
      | Inr sr \<Rightarrow> Inr (len_frame (bool_index df (eq_mask sr ''YES''))))"

definition kpi_metrics :: "(real list \<Rightarrow> 'a) \<Rightarrow> frame \<Rightarrow> error + 'a summary" where
  "kpi_metrics fmean df =
     (case recommend_count_of df of
        Inl e \<Rightarrow> Inl e
      | Inr n \<Rightarrow>
     (case getitem df ''Price_USD'' of
        Inl e \<Rightarrow> Inl e
      | Inr price \<Rightarrow>
     (case mean fmean price of
        Inl e \<Rightarrow> Inl e
      | Inr avg \<Rightarrow>
     (case max_series price of
        Inl e \<Rightarrow> Inl e
      | Inr mx \<Rightarrow>
     (case idxmax price of
        Inl e \<Rightarrow> Inl e
      | Inr i \<Rightarrow>
     (case loc df i ''Ticker'' of
        Inl e \<Rightarrow> Inl e
      | Inr t \<Rightarrow>
          Inr \<lparr>company_count = 5,
               recommend_count = n,
               avg_price = avg,
               max_price = mx,
               max_ticker = t\<rparr>))))))"

section \<open>The scenario rows of the comparison chart\<close>

text \<open>
  Lines 154 to 160: for each row of the table, in order, three dictionaries are appended
  to \<^verbatim>\<open>comparison_data\<close>. The prices of the two split scenarios are read from the
  columns \<^verbatim>\<open>Price_After_10to1\<close> and \<^verbatim>\<open>Price_After_20to1\<close> of the table; the
  script does not divide.

  \<^verbatim>\<open>data.iterrows()\<close> hands out each row in the one dtype common to all columns.
  When some column holds a string that dtype is object and every cell is handed out as
  it is. When every column is numeric the cells are converted to the common numeric
  dtype: nothing changes when all columns are int64, and an int64 cell becomes a float64
  when some column is float64. That conversion of a number is the parameter \<open>upcast\<close>.
\<close>

definition all_numeric :: "frame \<Rightarrow> bool" where
  "all_numeric df \<longleftrightarrow>
     list_all (\<lambda>r. list_all (\<lambda>c. \<not> is_str (cell_of r c)) (columns df)) (rows df)"

fun upcast_cell :: "(real \<Rightarrow> real) \<Rightarrow> cell \<Rightarrow> cell" where
  "upcast_cell upcast (Num x) = Num (upcast x)"
| "upcast_cell upcast c = c"

definition iterrows :: "(real \<Rightarrow> real) \<Rightarrow> frame \<Rightarrow> row list" where
  "iterrows upcast df =
     (if all_numeric df
      then map (map (\<lambda>kv. (fst kv, upcast_cell upcast (snd kv)))) (rows df)
      else rows df)"

record scenario_row =
  Company :: cell
  Scenario :: string
  Price :: cell

definition scenarios_of :: "string list \<Rightarrow> row \<Rightarrow> error + scenario_row list" where
  "scenarios_of cols r =
     (case row_getitem cols r ''Company'' of
        Inl e \<Rightarrow> Inl e
      | Inr c \<Rightarrow>
     (case row_getitem cols r ''Price_USD'' of
        Inl e \<Rightarrow> Inl e
      | Inr p \<Rightarrow>
     (case row_getitem cols r ''Price_After_10to1'' of
        Inl e \<Rightarrow> Inl e
      | Inr p10 \<Rightarrow>
     (case row_getitem cols r ''Price_After_20to1'' of
        Inl e \<Rightarrow> Inl e
      | Inr p20 \<Rightarrow>
          Inr [\<lparr>Company = c, Scenario = ''Current'', Price = p\<rparr>,
               \<lparr>Company = c, Scenario = ''10:1 Split'', Price = p10\<rparr>,
               \<lparr>Company = c, Scenario = ''20:1 Split'', Price = p20\<rparr>]))))"

text \<open>The loop, with \<^verbatim>\<open>comparison_data\<close> as the accumulator that \<^verbatim>\<open>extend\<close> grows.\<close>

fun extend_rows :: "string list \<Rightarrow> row list \<Rightarrow> scenario_row list \<Rightarrow> error + scenario_row list" where
  "extend_rows cols [] acc = Inr acc"
| "extend_rows cols (r # rs) acc =
     (case scenarios_of cols r of
        Inl e \<Rightarrow> Inl e
      | Inr three \<Rightarrow> extend_rows cols rs (acc @ three))"

definition comparison_data :: "(real \<Rightarrow> real) \<Rightarrow> frame \<Rightarrow> error + scenario_row list" where
  "comparison_data upcast df = extend_rows (columns df) (iterrows upcast df) []"

text \<open>
  The specification's wording of the same operation, for comparison: each record is
  pivoted into three rows, in the scenario order Current, 10:1 Split, 20:1 Split, and
  the triples follow one another in the order of the records.
\<close>

definition pivot :: "row \<Rightarrow> scenario_row list" where
  "pivot r =
     [\<lparr>Company = cell_of r ''Company'', Scenario = ''Current'',
        Price = cell_of r ''Price_USD''\<rparr>,
      \<lparr>Company = cell_of r ''Company'', Scenario = ''10:1 Split'',
        Price = cell_of r ''Price_After_10to1''\<rparr>,
      \<lparr>Company = cell_of r ''Company'', Scenario = ''20:1 Split'',
        Price = cell_of r ''Price_After_20to1''\<rparr>]"

definition toScenarioRows_spec :: "row list \<Rightarrow> scenario_row list" where
  "toScenarioRows_spec rs = concat (map pivot rs)"

section \<open>Loading\<close>

text \<open>
  \<^verbatim>\<open>load_data\<close> is \<^verbatim>\<open>pd.read_csv\<close> on a fixed path and nothing else. The parser
  and the file system are the parameter \<open>read_csv\<close>: the table the file parses to, or
  the exception raised.
\<close>

definition csv_path :: string where
  "csv_path = ''Updated_Stock_Split_Analysis.csv''"

definition load_data :: "(string \<Rightarrow> error + frame) \<Rightarrow> error + frame" where
  "load_data read_csv = read_csv csv_path"

text \<open>
  The decorator \<^verbatim>\<open>@st.cache_data\<close> memoises \<^verbatim>\<open>load_data\<close> in a cache of the
  Streamlit process. The function has no arguments, so the cache holds at most one
  entry. A call that finds the entry returns it; a call that does not runs the body and,
  when the body returns, stores the result. An exception is not stored.
\<close>

definition load_data_cached ::
    "(string \<Rightarrow> error + frame) \<Rightarrow> frame option \<Rightarrow> (error + frame) \<times> frame option" where
  "load_data_cached read_csv cache =
     (case cache of
        Some df \<Rightarrow> (Inr df, cache)
      | None \<Rightarrow>
          (case load_data read_csv of
             Inl e \<Rightarrow> (Inl e, cache)
           | Inr df \<Rightarrow> (Inr df, Some df)))"



section \<open>The detail table: formatting a copy\<close>

text \<open>
  Lines 235 to 245 are the only assignments into a table. They act on
  \<^verbatim>\<open>display_df = data.copy()\<close>. To tell a copy from an alias, tables live in a store
  and are named by their address; \<^verbatim>\<open>copy\<close> allocates a new address.
\<close>

type_synonym store = "frame list"

definition copy_frame :: "store \<Rightarrow> nat \<Rightarrow> store \<times> nat" where
  "copy_frame s a = (s @ [s ! a], length s)"

text \<open>\<^verbatim>\<open>Series.apply(f)\<close>: \<open>f\<close> on each cell in turn; the first exception ends it.\<close>

fun apply_series :: "(cell \<Rightarrow> error + cell) \<Rightarrow> cell list \<Rightarrow> error + cell list" where
  "apply_series f [] = Inr []"
| "apply_series f (c # cs) =
     (case f c of
        Inl e \<Rightarrow> Inl e
      | Inr v \<Rightarrow>
          (case apply_series f cs of
             Inl e \<Rightarrow> Inl e
           | Inr vs \<Rightarrow> Inr (v # vs)))"

fun set_cell :: "string \<Rightarrow> cell \<Rightarrow> row \<Rightarrow> row" where
  "set_cell c v [] = [(c, v)]"
| "set_cell c v ((k, w) # r) = (if k = c then (c, v) # r else (k, w) # set_cell c v r)"

text \<open>\<^verbatim>\<open>df[c] = values\<close>: the column is replaced, or appended when the table lacks it.\<close>

definition setitem :: "frame \<Rightarrow> string \<Rightarrow> cell list \<Rightarrow> frame" where
  "setitem df c vals =
     \<lparr>columns = (if c \<in> set (columns df) then columns df else columns df @ [c]),
      rows = map (\<lambda>(r, v). set_cell c v r) (zip (rows df) vals)\<rparr>"

text \<open>
  \<^verbatim>\<open>display_df[c] = display_df[c].apply(f)\<close>, in place on the table at address
  \<open>a\<close>. The result pairs the exception, if one was raised, with the store as the
  statement left it.
\<close>

definition format_column ::
    "(cell \<Rightarrow> error + cell) \<Rightarrow> string \<Rightarrow> nat \<Rightarrow> store \<Rightarrow> error option \<times> store" where
  "format_column f c a s =
     (case getitem (s ! a) c of
        Inl e \<Rightarrow> (Some e, s)
      | Inr col \<Rightarrow>
          (case apply_series f col of
             Inl e \<Rightarrow> (Some e, s)
           | Inr col' \<Rightarrow> (None, s[a := setitem (s ! a) c col'])))"

text \<open>
  The columns formatted, in the order of the source, each with the template of its
  f-string. What Python's formatting makes of a cell under a template is the parameter
  \<open>fstring\<close>.
\<close>

definition display_formats :: "(string \<times> string) list" where
  "display_formats =
     [(''Price_USD'', ''${x:,.2f}''),
      (''Price_After_10to1'', ''${x:,.2f}''),
      (''Price_After_20to1'', ''${x:,.2f}''),
      (''Market_Cap_Billions'', ''${x:.1f}B''),
      (''PE_Ratio'', ''{x:.1f}''),
      (''Dividend_Yield'', ''{x:.2f}%'')]"

fun format_columns ::
    "(string \<Rightarrow> cell \<Rightarrow> error + cell) \<Rightarrow> (string \<times> string) list \<Rightarrow> nat \<Rightarrow> store
       \<Rightarrow> error option \<times> store" where
  "format_columns fstring [] a s = (None, s)"
| "format_columns fstring ((c, t) # cts) a s =
     (case format_column (fstring t) c a s of
        (Some e, s') \<Rightarrow> (Some e, s')
      | (None, s') \<Rightarrow> format_columns fstring cts a s')"

definition format_table ::
    "(string \<Rightarrow> cell \<Rightarrow> error + cell) \<Rightarrow> store \<Rightarrow> nat \<Rightarrow> error option \<times> store" where
  "format_table fstring s data =
     (case copy_frame s data of
        (s', display_df) \<Rightarrow> format_columns fstring display_formats display_df s')"

section \<open>The run and the process\<close>

text \<open>
  What an operation of \<^verbatim>\<open>main\<close> can change is the tables the run holds and the
  memo cache of \<^verbatim>\<open>load_data\<close>, which belongs to the Streamlit process and
  outlives the run. The operations are written once more as steps on that state.

  Loading: \<^verbatim>\<open>st.cache_data\<close> hands out a copy of the table on every call, so
  \<^verbatim>\<open>data\<close> is a new table of the run; the step returns its address.
\<close>

record state =
  memo :: "frame option"
  tables :: store

definition load_step :: "(string \<Rightarrow> error + frame) \<Rightarrow> state \<Rightarrow> (error + nat) \<times> state" where
  "load_step read_csv st =
     (case load_data_cached read_csv (memo st) of
        (Inl e, memo') \<Rightarrow> (Inl e, st\<lparr>memo := memo'\<rparr>)
      | (Inr df, memo') \<Rightarrow>
          (Inr (length (tables st)), \<lparr>memo = memo', tables = tables st @ [df]\<rparr>))"

text \<open>
  The KPI row (lines 69 to 106) and the scenario loop (lines 154 to 160) assign to no
  table and call nothing that writes one: the mask, the filtered table, the columns and
  the rows handed out are new objects that the run does not keep.
\<close>

definition kpi_step ::
    "(real list \<Rightarrow> 'a) \<Rightarrow> state \<Rightarrow> nat \<Rightarrow> (error + 'a summary) \<times> state" where
  "kpi_step fmean st data = (kpi_metrics fmean (tables st ! data), st)"

definition scenario_step ::
    "(real \<Rightarrow> real) \<Rightarrow> state \<Rightarrow> nat \<Rightarrow> (error + scenario_row list) \<times> state" where
  "scenario_step upcast st data = (comparison_data upcast (tables st ! data), st)"

text \<open>The detail table (lines 235 to 245) writes, into the copy it makes.\<close>

definition format_step ::
    "(string \<Rightarrow> cell \<Rightarrow> error + cell) \<Rightarrow> state \<Rightarrow> nat \<Rightarrow> error option \<times> state" where
  "format_step fstring st data =
     (case format_table fstring (tables st) data of
        (e, tables') \<Rightarrow> (e, st\<lparr>tables := tables'\<rparr>))"

text \<open>
  The operations in any order and number: \<^verbatim>\<open>main\<close> runs them once each, one
  after the other, and Streamlit runs \<^verbatim>\<open>main\<close> again on every interaction, in
  the same process.
\<close>

datatype operation = Load | Summarize nat | ToScenarioRows nat | FormatTable nat

fun apply_op ::
    "(string \<Rightarrow> error + frame) \<Rightarrow> (real list \<Rightarrow> 'a) \<Rightarrow> (real \<Rightarrow> real) \<Rightarrow>
     (string \<Rightarrow> cell \<Rightarrow> error + cell) \<Rightarrow> operation \<Rightarrow> state \<Rightarrow> state" where
  "apply_op read_csv fmean upcast fstring Load st = snd (load_step read_csv st)"
| "apply_op read_csv fmean upcast fstring (Summarize data) st = snd (kpi_step fmean st data)"
| "apply_op read_csv fmean upcast fstring (ToScenarioRows data) st =
     snd (scenario_step upcast st data)"
| "apply_op read_csv fmean upcast fstring (FormatTable data) st =
     snd (format_step fstring st data)"

definition run ::
    "(string \<Rightarrow> error + frame) \<Rightarrow> (real list \<Rightarrow> 'a) \<Rightarrow> (real \<Rightarrow> real) \<Rightarrow>
     (string \<Rightarrow> cell \<Rightarrow> error + cell) \<Rightarrow> operation list \<Rightarrow> state \<Rightarrow> state" where
  "run read_csv fmean upcast fstring ops st =
     fold (apply_op read_csv fmean upcast fstring) ops st"

section \<open>Well-formed tables and example tables\<close>

text \<open>The columns the KPI row reads, and the columns the scenario loop reads.\<close>

definition kpi_columns :: "string list" where
  "kpi_columns = [''Split_Recommendation'', ''Price_USD'', ''Ticker'']"

definition scenario_columns :: "string list" where
  "scenario_columns = [''Company'', ''Price_USD'', ''Price_After_10to1'', ''Price_After_20to1'']"

fun is_number :: "cell \<Rightarrow> bool" where
  "is_number (Num x) = True"
| "is_number _ = False"

definition price_of :: "row \<Rightarrow> real" where
  "price_of r = (case cell_of r ''Price_USD'' of Num x \<Rightarrow> x | _ \<Rightarrow> 0)"

text \<open>
  A record set as the specification's data model has it, seen from the KPI row: the
  columns are there, there is at least one row, and every row has a number as its price.
\<close>

definition priced :: "frame \<Rightarrow> bool" where
  "priced df \<longleftrightarrow>
     set kpi_columns \<subseteq> set (columns df) \<and> rows df \<noteq> [] \<and>
     list_all (\<lambda>r. is_number (cell_of r ''Price_USD'')) (rows df)"

text \<open>The table without one of its columns, as a file lacking that column parses.\<close>

definition drop_column :: "string \<Rightarrow> frame \<Rightarrow> frame" where
  "drop_column c df =
     \<lparr>columns = removeAll c (columns df),
      rows = map (filter (\<lambda>kv. fst kv \<noteq> c)) (rows df)\<rparr>"

definition schema :: "string list" where
  "schema =
     [''Ticker'', ''Company'', ''Price_USD'', ''PE_Ratio'', ''Market_Cap_Billions'',
      ''Dividend_Yield'', ''Split_Recommendation'', ''Price_After_10to1'',
      ''Price_After_20to1'']"

definition company :: "string \<Rightarrow> string \<Rightarrow> real \<Rightarrow> cell \<Rightarrow> real \<Rightarrow> real \<Rightarrow> row" where
  "company t n p flag p10 p20 =
     [(''Ticker'', Str t), (''Company'', Str n), (''Price_USD'', Num p),
      (''PE_Ratio'', Num 25), (''Market_Cap_Billions'', Num 100),
      (''Dividend_Yield'', Num 1), (''Split_Recommendation'', flag),
      (''Price_After_10to1'', Num p10), (''Price_After_20to1'', Num p20)]"

text \<open>
  The two companies of the specification's concrete scenario. The split prices 358.4
  and 179.2 of the first are written as the decimal numbers of the file; float64 has
  only neighbours of them, and nothing below depends on which. The numbers of the second
  company are float64 values.
\<close>

definition portfolio2 :: frame where
  "portfolio2 =
     \<lparr>columns = schema,
      rows = [company ''AMZN'' ''Amazon'' 3584 (Str ''YES'') (1792 / 5) (896 / 5),
              company ''KO'' ''Coca-Cola'' (125 / 2) (Str ''NO'') (25 / 4) (25 / 8)]\<rparr>"


text \<open>One company whose split columns do not hold a tenth and a twentieth of its price.\<close>

definition stale_split :: frame where
  "stale_split = \<lparr>columns = schema, rows = [company ''X'' ''Xco'' 100 (Str ''NO'') 7 3]\<rparr>"

text \<open>One company whose split columns are larger than its price.\<close>

definition inverted_split :: frame where
  "inverted_split =
     \<lparr>columns = schema, rows = [company ''X'' ''Xco'' 100 (Str ''NO'') 500 1000]\<rparr>"

text \<open>Three companies, the last two sharing the highest price.\<close>

definition tied_prices :: frame where
  "tied_prices =
     \<lparr>columns = schema,
      rows = [company ''A'' ''Aco'' 60 (Str ''NO'') 6 3,
              company ''B'' ''Bco'' 90 (Str ''NO'') 9 (9 / 2),
              company ''C'' ''Cco'' 90 (Str ''NO'') 9 (9 / 2)]\<rparr>"

text \<open>Recommendation cells that are not the string \<^verbatim>\<open>YES\<close>, and one that is.\<close>

definition mixed_flags :: frame where
  "mixed_flags =
     \<lparr>columns = schema,
      rows = [company ''A'' ''Aco'' 10 (Str ''YES'') 1 (1 / 2),
              company ''B'' ''Bco'' 10 (Str ''yes'') 1 (1 / 2),
              company ''C'' ''Cco'' 10 (Str ''Y'') 1 (1 / 2),
              company ''D'' ''Dco'' 10 NaN 1 (1 / 2),
              company ''E'' ''Eco'' 10 (Num 1) 1 (1 / 2)]\<rparr>"

text \<open>A file with the header line only.\<close>

definition header_only :: frame where
  "header_only = \<lparr>columns = schema, rows = []\<rparr>"

text \<open>The scenario's table as a file that lacks the column \<^verbatim>\<open>PE_Ratio\<close>.\<close>

definition portfolio2_no_pe :: frame where
  "portfolio2_no_pe = drop_column ''PE_Ratio'' portfolio2"

text \<open>Two file systems, each holding the one file the script opens.\<close>

definition file_portfolio2 :: "string \<Rightarrow> error + frame" where
  "file_portfolio2 path =
     (if path = csv_path then Inr portfolio2 else Inl FileNotFoundError)"

definition file_without_pe :: "string \<Rightarrow> error + frame" where
  "file_without_pe path =
     (if path = csv_path then Inr portfolio2_no_pe else Inl FileNotFoundError)"

text \<open>
  A stand-in for Python's formatting in the examples: it refuses a string and answers
  a number or a missing value with the template itself.
\<close>

definition echo_template :: "string \<Rightarrow> cell \<Rightarrow> error + cell" where
  "echo_template t c = (case c of Str s \<Rightarrow> Inl TypeError | _ \<Rightarrow> Inr (Str t))"

text \<open>
  A stand-in for float64 arithmetic in the examples: the exact mean, and \<^verbatim>\<open>NaN\<close>
  for no entries. In the example tables every sum of prices and its quotient by their
  number is a float64 value, so that float64 arithmetic gives the same number.
\<close>

definition exact_mean :: "real list \<Rightarrow> cell" where
  "exact_mean xs = (if xs = [] then NaN else Num (sum_list xs / real (length xs)))"


text \<open>A process that has not loaded yet, and a run that holds no table.\<close>

definition fresh_process :: state where
  "fresh_process = \<lparr>memo = None, tables = []\<rparr>"

text \<open>
  A table whose columns are all numeric, the last one float64, and whose 10:1 column
  holds the int64 value \<open>2^53 + 1\<close>, which float64 does not have.
\<close>

definition numeric_only :: frame where
  "numeric_only =
     \<lparr>columns = scenario_columns,
      rows = [[(''Company'', Num 1), (''Price_USD'', Num 100),
               (''Price_After_10to1'', Num 9007199254740993),
               (''Price_After_20to1'', Num (1 / 2))]]\<rparr>"

text \<open>
  A stand-in for the conversion to float64 in the examples: it takes \<open>2^53 + 1\<close> to
  \<open>2^53\<close>, as the conversion does, and is used on no other number that float64 lacks.
\<close>

definition to_float64_example :: "real \<Rightarrow> real" where
  "to_float64_example x = (if x = 9007199254740993 then 9007199254740992 else x)"

text \<open>
  The state after a first run has loaded the scenario's table, and the operations of
  the next run, whose \<^verbatim>\<open>data\<close> is the table at address 1.
\<close>

definition loaded_once :: state where
  "loaded_once = \<lparr>memo = Some portfolio2, tables = [portfolio2]\<rparr>"

definition rerun :: "operation list" where
  "rerun = [Load, Summarize 1, ToScenarioRows 1, FormatTable 1]"

section \<open>Facts about the reductions\<close>

lemma mask_filter: "map fst (filter snd (zip xs (map P xs))) = filter P xs"
  by (induction xs) auto

lemma recommend_count_of_present:
  assumes "''Split_Recommendation'' \<in> set (columns df)"
  shows "recommend_count_of df =
     Inr (length (filter (\<lambda>r. cell_of r ''Split_Recommendation'' = Str ''YES'') (rows df)))"
proof -
  have "map fst (filter snd (zip (rows df)
          (map (\<lambda>r. cell_of r ''Split_Recommendation'' = Str ''YES'') (rows df)))) =
        filter (\<lambda>r. cell_of r ''Split_Recommendation'' = Str ''YES'') (rows df)"
    by (rule mask_filter)
  with assms show ?thesis
    by (simp add: recommend_count_of_def getitem_def eq_mask_def bool_index_def len_frame_def
        comp_def)
qed


lemma nums_no_str: "list_all is_number cs \<Longrightarrow> \<not> list_ex is_str cs"
  by (induction cs) (auto elim: is_number.elims)

lemma price_column_numbers:
  assumes "list_all (\<lambda>r. is_number (cell_of r ''Price_USD'')) rs"
  shows "numbers (map (\<lambda>r. cell_of r ''Price_USD'') rs) = map price_of rs"
  using assms
proof (induction rs)
  case Nil
  then show ?case by simp
next
  case (Cons r rs)
  then show ?case by (cases "cell_of r ''Price_USD''") (auto simp: price_of_def)
qed

lemma price_cell:
  "is_number (cell_of r ''Price_USD'') \<Longrightarrow> cell_of r ''Price_USD'' = Num (price_of r)"
  by (cases "cell_of r ''Price_USD''") (auto simp: price_of_def)


lemma argmax_bound:
  "argmax_from k cs best = Some (i, m) \<Longrightarrow>
     (\<forall>z\<in>set (numbers cs). z \<le> m) \<and> (\<forall>j y. best = Some (j, y) \<longrightarrow> y \<le> m)"
proof (induction cs arbitrary: k best)
  case Nil
  then show ?case by simp
next
  case (Cons c cs)
  show ?case
  proof (cases c)
    case (Num x)
    with Cons.prems have
      "argmax_from (Suc k) cs
         (case best of None \<Rightarrow> Some (k, x)
          | Some (j, y) \<Rightarrow> if y < x then Some (k, x) else Some (j, y)) = Some (i, m)"
      by simp
    from Cons.IH [OF this] Num show ?thesis
      by (auto split: option.splits if_splits)
  next
    case (Str v)
    with Cons.prems have "argmax_from (Suc k) cs best = Some (i, m)" by simp
    from Cons.IH [OF this] Str show ?thesis by simp
  next
    case NaN
    with Cons.prems have "argmax_from (Suc k) cs best = Some (i, m)" by simp
    from Cons.IH [OF this] NaN show ?thesis by simp
  qed
qed

text \<open>Shifting a position past a cell that the scan skipped or lost against.\<close>

lemma later_shift:
  assumes "Suc k \<le> i" and "i - Suc k < length cs" and "cs ! (i - Suc k) = Num m"
    and "\<forall>p<i - Suc k. \<forall>z. cs ! p = Num z \<longrightarrow> z < m"
    and "\<forall>z. c = Num z \<longrightarrow> z < m"
  shows "k \<le> i \<and> i - k < length (c # cs) \<and> (c # cs) ! (i - k) = Num m \<and>
         (\<forall>p<i - k. \<forall>z. (c # cs) ! p = Num z \<longrightarrow> z < m)"
proof -
  have ik: "i - k = Suc (i - Suc k)" using assms(1) by simp
  have "\<forall>p<i - k. \<forall>z. (c # cs) ! p = Num z \<longrightarrow> z < m"
    using assms(4,5) unfolding ik by (auto simp: nth_Cons split: nat.splits)
  with assms ik show ?thesis by auto
qed

lemma argmax_pos:
  "argmax_from k cs best = Some (i, m) \<Longrightarrow>
     best = Some (i, m) \<or>
     (k \<le> i \<and> i - k < length cs \<and> cs ! (i - k) = Num m \<and>
      (\<forall>p<i - k. \<forall>z. cs ! p = Num z \<longrightarrow> z < m) \<and>
      (\<forall>j y. best = Some (j, y) \<longrightarrow> y < m))"
proof (induction cs arbitrary: k best)
  case Nil
  then show ?case by simp
next
  case (Cons c cs)
  show ?case
  proof (cases c)
    case (Num x)
    let ?b = "case best of None \<Rightarrow> Some (k, x)
        | Some (j, y) \<Rightarrow> if y < x then Some (k, x) else Some (j, y)"
    from Cons.prems Num have run: "argmax_from (Suc k) cs ?b = Some (i, m)" by simp
    from Cons.IH [OF run] consider
      (kept) "?b = Some (i, m)"
    | (later) "Suc k \<le> i" "i - Suc k < length cs" "cs ! (i - Suc k) = Num m"
        "\<forall>p<i - Suc k. \<forall>z. cs ! p = Num z \<longrightarrow> z < m"
        "\<forall>j y. ?b = Some (j, y) \<longrightarrow> y < m"
      by blast
    then show ?thesis
    proof cases
      case kept
      with Num show ?thesis
        by (auto split: option.splits if_splits)
    next
      case later
      have xm: "x < m" using later(5)
        by (auto split: option.splits if_splits)
      have old: "\<forall>j y. best = Some (j, y) \<longrightarrow> y < m" using later(5) xm
        by (auto split: option.splits if_splits)
      from xm Num have "\<forall>z. c = Num z \<longrightarrow> z < m" by simp
      from later_shift [OF later(1-4) this] old show ?thesis by blast
    qed
  next
    case (Str v)
    with Cons.prems have run: "argmax_from (Suc k) cs best = Some (i, m)" by simp
    from Cons.IH [OF run] consider
      (kept) "best = Some (i, m)"
    | (later) "Suc k \<le> i" "i - Suc k < length cs" "cs ! (i - Suc k) = Num m"
        "\<forall>p<i - Suc k. \<forall>z. cs ! p = Num z \<longrightarrow> z < m"
        "\<forall>j y. best = Some (j, y) \<longrightarrow> y < m"
      by blast
    then show ?thesis
    proof cases
      case kept
      then show ?thesis by simp
    next
      case later
      from Str have "\<forall>z. c = Num z \<longrightarrow> z < m" by simp
      from later_shift [OF later(1-4) this] later(5) show ?thesis by blast
    qed
  next
    case NaN
    with Cons.prems have run: "argmax_from (Suc k) cs best = Some (i, m)" by simp
    from Cons.IH [OF run] consider
      (kept) "best = Some (i, m)"
    | (later) "Suc k \<le> i" "i - Suc k < length cs" "cs ! (i - Suc k) = Num m"
        "\<forall>p<i - Suc k. \<forall>z. cs ! p = Num z \<longrightarrow> z < m"
        "\<forall>j y. best = Some (j, y) \<longrightarrow> y < m"
      by blast
    then show ?thesis
    proof cases
      case kept
      then show ?thesis by simp
    next
      case later
      from NaN have "\<forall>z. c = Num z \<longrightarrow> z < m" by simp
      from later_shift [OF later(1-4) this] later(5) show ?thesis by blast
    qed
  qed
qed

lemma argmax_some:
  "best \<noteq> None \<or> numbers cs \<noteq> [] \<Longrightarrow> \<exists>i m. argmax_from k cs best = Some (i, m)"
proof (induction cs arbitrary: k best)
  case Nil
  then show ?case by auto
next
  case (Cons c cs)
  show ?case
  proof (cases c)
    case (Num x)
    have "(case best of None \<Rightarrow> Some (k, x)
        | Some (j, y) \<Rightarrow> if y < x then Some (k, x) else Some (j, y)) \<noteq> None"
      by (auto split: option.splits)
    then show ?thesis using Num Cons.IH by simp
  next
    case (Str v)
    with Cons show ?thesis by simp
  next
    case NaN
    with Cons show ?thesis by simp
  qed
qed

text \<open>The scan from the front of a column of numbers: where it stops.\<close>

lemma argmax_first_maximum:
  assumes "rs \<noteq> []" and "list_all (\<lambda>r. is_number (cell_of r ''Price_USD'')) rs"
  shows "\<exists>i m. argmax_from 0 (map (\<lambda>r. cell_of r ''Price_USD'') rs) None = Some (i, m) \<and>
           i < length rs \<and> price_of (rs ! i) = m \<and>
           (\<forall>j<length rs. price_of (rs ! j) \<le> m) \<and>
           (\<forall>j<i. price_of (rs ! j) < m)"
proof -
  let ?col = "map (\<lambda>r. cell_of r ''Price_USD'') rs"
  have nums: "numbers ?col = map price_of rs"
    using assms(2) by (rule price_column_numbers)
  have cells: "\<And>j. j < length rs \<Longrightarrow> ?col ! j = Num (price_of (rs ! j))"
    using assms(2) by (simp add: list_all_length price_cell)
  from assms(1) nums have "numbers ?col \<noteq> []" by simp
  then obtain i m where run: "argmax_from 0 ?col None = Some (i, m)"
    using argmax_some [of None ?col 0] by blast
  from argmax_pos [OF run] have
    pos: "i < length rs" "?col ! i = Num m"
    and before: "\<forall>p<i. \<forall>z. ?col ! p = Num z \<longrightarrow> z < m"
    by simp_all
  from pos cells have m: "price_of (rs ! i) = m" by simp
  from argmax_bound [OF run] nums have "\<forall>z\<in>set (map price_of rs). z \<le> m" by simp
  then have all: "\<forall>j<length rs. price_of (rs ! j) \<le> m" by simp
  have first: "\<forall>j<i. price_of (rs ! j) < m"
  proof (intro allI impI)
    fix j assume "j < i"
    with pos(1) have "j < length rs" by simp
    then have "?col ! j = Num (price_of (rs ! j))" by (rule cells)
    with before \<open>j < i\<close> show "price_of (rs ! j) < m" by blast
  qed
  from run pos(1) m all first show ?thesis by blast
qed

text \<open>The KPI row on a priced table, field by field.\<close>

lemma kpi_metrics_priced:
  assumes "priced df"
  shows "\<exists>i. i < length (rows df) \<and>
     (\<forall>j<length (rows df). price_of (rows df ! j) \<le> price_of (rows df ! i)) \<and>
     (\<forall>j<i. price_of (rows df ! j) < price_of (rows df ! i)) \<and>
     kpi_metrics fmean df = Inr \<lparr>company_count = 5,
       recommend_count =
         length (filter (\<lambda>r. cell_of r ''Split_Recommendation'' = Str ''YES'') (rows df)),
       avg_price = fmean (map price_of (rows df)),
       max_price = Num (Max (set (map price_of (rows df)))),
       max_ticker = cell_of (rows df ! i) ''Ticker''\<rparr>"
proof -
  let ?col = "map (\<lambda>r. cell_of r ''Price_USD'') (rows df)"
  from assms have cols: "''Split_Recommendation'' \<in> set (columns df)"
      "''Price_USD'' \<in> set (columns df)" "''Ticker'' \<in> set (columns df)"
    and ne: "rows df \<noteq> []"
    and num: "list_all (\<lambda>r. is_number (cell_of r ''Price_USD'')) (rows df)"
    by (simp_all add: priced_def kpi_columns_def)
  have nums: "numbers ?col = map price_of (rows df)"
    using num by (rule price_column_numbers)
  have nostr: "\<not> list_ex is_str ?col"
    using num by (intro nums_no_str) (simp add: list_all_iff)
  from ne obtain r rs where rows: "rows df = r # rs" by (cases "rows df") auto
  from argmax_first_maximum [OF ne num] obtain i m where
    run: "argmax_from 0 ?col None = Some (i, m)" and i: "i < length (rows df)"
    and top: "\<forall>j<length (rows df). price_of (rows df ! j) \<le> price_of (rows df ! i)"
    and first: "\<forall>j<i. price_of (rows df ! j) < price_of (rows df ! i)"
    by blast
  have price: "getitem df ''Price_USD'' = Inr ?col"
    using cols(2) by (simp add: getitem_def)
  have avg: "mean fmean ?col = Inr (fmean (map price_of (rows df)))"
    using nostr nums by (simp add: mean_def)
  have "Max (set (price_of r # map price_of rs)) = fold max (map price_of rs) (price_of r)"
    by (rule Max.set_eq_fold)
  then have "fold max (map price_of rs) (price_of r) = Max (set (map price_of (rows df)))"
    unfolding rows by simp
  then have mx: "max_series ?col = Inr (Num (Max (set (map price_of (rows df)))))"
    using nostr nums rows by (simp add: max_series_def)
  have idx: "idxmax ?col = Inr i"
    using nostr run by (simp add: idxmax_def)
  have tick: "loc df i ''Ticker'' = Inr (cell_of (rows df ! i) ''Ticker'')"
    using cols(3) i by (simp add: loc_def)
  have "kpi_metrics fmean df = Inr \<lparr>company_count = 5,
       recommend_count =
         length (filter (\<lambda>r. cell_of r ''Split_Recommendation'' = Str ''YES'') (rows df)),
       avg_price = fmean (map price_of (rows df)),
       max_price = Num (Max (set (map price_of (rows df)))),
       max_ticker = cell_of (rows df ! i) ''Ticker''\<rparr>"
    unfolding kpi_metrics_def
    by (simp only: recommend_count_of_present [OF cols(1)] price avg mx idx tick sum.case)
  with i top first show ?thesis by blast
qed

lemmas table_defs = schema_def company_def cell_of_def

lemmas kpi_defs = kpi_metrics_def recommend_count_of_def getitem_def mean_def max_series_def
  idxmax_def loc_def len_frame_def bool_index_def eq_mask_def

lemmas scenario_defs = comparison_data_def iterrows_def all_numeric_def scenarios_of_def
  row_getitem_def

lemma kpi_portfolio2:
  "kpi_metrics exact_mean portfolio2 =
     Inr \<lparr>company_count = 5, recommend_count = 1, avg_price = Num (7293 / 4),
          max_price = Num 3584, max_ticker = Str ''AMZN''\<rparr>"
  by (simp add: kpi_defs exact_mean_def portfolio2_def table_defs)

lemma kpi_tied_prices:
  "kpi_metrics fmean tied_prices =
     Inr \<lparr>company_count = 5, recommend_count = 0, avg_price = fmean [60, 90, 90],
          max_price = Num 90, max_ticker = Str ''B''\<rparr>"
  by (simp add: kpi_defs tied_prices_def table_defs)

section \<open>Facts about the scenario loop\<close>

lemma scenarios_of_present:
  "set scenario_columns \<subseteq> set cols \<Longrightarrow> scenarios_of cols r = Inr (pivot r)"
  by (simp add: scenarios_of_def row_getitem_def scenario_columns_def pivot_def)

lemma scenarios_of_result: "scenarios_of cols r = Inr three \<Longrightarrow> three = pivot r"
  by (auto simp: scenarios_of_def row_getitem_def pivot_def split: if_splits)

lemma extend_rows_present:
  "set scenario_columns \<subseteq> set cols \<Longrightarrow>
     extend_rows cols rs acc = Inr (acc @ toScenarioRows_spec rs)"
  by (induction rs arbitrary: acc) (simp_all add: scenarios_of_present toScenarioRows_spec_def)

lemma extend_rows_result:
  "extend_rows cols rs acc = Inr out \<Longrightarrow> out = acc @ toScenarioRows_spec rs"
proof (induction rs arbitrary: acc)
  case Nil
  then show ?case by (simp add: toScenarioRows_spec_def)
next
  case (Cons r rs)
  from Cons.prems obtain three where three: "scenarios_of cols r = Inr three"
    and rest: "extend_rows cols rs (acc @ three) = Inr out"
    by (auto split: sum.splits)
  from Cons.IH [OF rest] scenarios_of_result [OF three] show ?case
    by (simp add: toScenarioRows_spec_def)
qed

lemma length_toScenarioRows_spec: "length (toScenarioRows_spec rs) = 3 * length rs"
  by (induction rs) (simp_all add: toScenarioRows_spec_def pivot_def)

lemma nth_toScenarioRows_spec:
  "i < length rs \<Longrightarrow> k < 3 \<Longrightarrow> toScenarioRows_spec rs ! (3 * i + k) = pivot (rs ! i) ! k"
proof (induction rs arbitrary: i)
  case Nil
  then show ?case by simp
next
  case (Cons r rs)
  have len: "length (pivot r) = 3" by (simp add: pivot_def)
  show ?case
  proof (cases i)
    case 0
    with Cons.prems len show ?thesis
      by (simp add: toScenarioRows_spec_def nth_append)
  next
    case (Suc j)
    with Cons.prems have j: "j < length rs" by simp
    have "toScenarioRows_spec (r # rs) ! (3 * i + k) =
          (pivot r @ toScenarioRows_spec rs) ! (3 + (3 * j + k))"
      using Suc by (simp add: toScenarioRows_spec_def add.assoc)
    also have "\<dots> = toScenarioRows_spec rs ! (3 * j + k)"
      using len by (simp add: nth_append)
    also have "\<dots> = pivot (rs ! j) ! k"
      using Cons.IH [OF j Cons.prems(2)] .
    finally show ?thesis using Suc by simp
  qed
qed

lemma nth_toScenarioRows_spec_layout:
  assumes "i < length rs"
  shows "toScenarioRows_spec rs ! (3 * i) =
           \<lparr>Company = cell_of (rs ! i) ''Company'', Scenario = ''Current'',
            Price = cell_of (rs ! i) ''Price_USD''\<rparr>"
    and "toScenarioRows_spec rs ! Suc (3 * i) =
           \<lparr>Company = cell_of (rs ! i) ''Company'', Scenario = ''10:1 Split'',
            Price = cell_of (rs ! i) ''Price_After_10to1''\<rparr>"
    and "toScenarioRows_spec rs ! Suc (Suc (3 * i)) =
           \<lparr>Company = cell_of (rs ! i) ''Company'', Scenario = ''20:1 Split'',
            Price = cell_of (rs ! i) ''Price_After_20to1''\<rparr>"
  using nth_toScenarioRows_spec [OF assms, of 0] nth_toScenarioRows_spec [OF assms, of 1]
    nth_toScenarioRows_spec [OF assms, of 2]
  by (simp_all add: pivot_def)

text \<open>The rows that \<^verbatim>\<open>iterrows\<close> hands out.\<close>

lemma length_iterrows: "length (iterrows upcast df) = length (rows df)"
  by (simp add: iterrows_def)

lemma iterrows_object: "\<not> all_numeric df \<Longrightarrow> iterrows upcast df = rows df"
  by (simp add: iterrows_def)

lemma cell_of_upcast:
  "cell_of (map (\<lambda>kv. (fst kv, upcast_cell upcast (snd kv))) r) c =
     upcast_cell upcast (cell_of r c)"
  by (induction r) (auto simp: cell_of_def)

lemma cell_of_iterrows:
  assumes "i < length (rows df)"
  shows "cell_of (iterrows upcast df ! i) c =
           (if all_numeric df then upcast_cell upcast (cell_of (rows df ! i) c)
            else cell_of (rows df ! i) c)"
  using assms by (simp add: iterrows_def cell_of_upcast)

lemma comparison_data_result:
  "comparison_data upcast df = Inr out \<Longrightarrow> out = toScenarioRows_spec (iterrows upcast df)"
  using extend_rows_result [of "columns df" "iterrows upcast df" "[]" out]
  by (simp add: comparison_data_def)

lemma portfolio2_object: "\<not> all_numeric portfolio2"
  by (simp add: all_numeric_def portfolio2_def table_defs)

lemma comparison_portfolio2:
  "comparison_data upcast portfolio2 =
     Inr [\<lparr>Company = Str ''Amazon'', Scenario = ''Current'', Price = Num 3584\<rparr>,
          \<lparr>Company = Str ''Amazon'', Scenario = ''10:1 Split'', Price = Num (1792 / 5)\<rparr>,
          \<lparr>Company = Str ''Amazon'', Scenario = ''20:1 Split'', Price = Num (896 / 5)\<rparr>,
          \<lparr>Company = Str ''Coca-Cola'', Scenario = ''Current'', Price = Num (125 / 2)\<rparr>,
          \<lparr>Company = Str ''Coca-Cola'', Scenario = ''10:1 Split'', Price = Num (25 / 4)\<rparr>,
          \<lparr>Company = Str ''Coca-Cola'', Scenario = ''20:1 Split'', Price = Num (25 / 8)\<rparr>]"
  unfolding comparison_data_def iterrows_object [OF portfolio2_object]
  by (simp add: scenarios_of_def row_getitem_def portfolio2_def table_defs)

section \<open>Facts about a table without one of its columns\<close>










section \<open>Facts about the store\<close>

lemma format_column_frame:
  assumes "format_column f c a s = (e, s')"
  shows "length s' = length s \<and> (\<forall>b. b \<noteq> a \<longrightarrow> s' ! b = s ! b)"
  using assms by (auto simp: format_column_def split: sum.splits)

lemma format_columns_frame:
  "format_columns fstring cts a s = (e, s') \<Longrightarrow>
     length s' = length s \<and> (\<forall>b. b \<noteq> a \<longrightarrow> s' ! b = s ! b)"
proof (induction cts arbitrary: s)
  case Nil
  then show ?case by simp
next
  case (Cons ct cts)
  obtain c t where ct: "ct = (c, t)" by (cases ct)
  obtain e1 s1 where step: "format_column (fstring t) c a s = (e1, s1)"
    by (cases "format_column (fstring t) c a s")
  from format_column_frame [OF step] have
    one: "length s1 = length s \<and> (\<forall>b. b \<noteq> a \<longrightarrow> s1 ! b = s ! b)" .
  show ?case
  proof (cases e1)
    case None
    with Cons.prems ct step have "format_columns fstring cts a s1 = (e, s')" by simp
    from Cons.IH [OF this] one show ?thesis by simp
  next
    case (Some err)
    with Cons.prems ct step have "s' = s1" by simp
    with one show ?thesis by simp
  qed
qed

lemma format_table_prefix:
  "take (length s) (snd (format_table fstring s data)) = s"
proof -
  obtain e s' where run:
    "format_columns fstring display_formats (length s) (s @ [s ! data]) = (e, s')"
    by (cases "format_columns fstring display_formats (length s) (s @ [s ! data])")
  from format_columns_frame [OF run] have
    len: "length s' = Suc (length s)"
    and same: "\<forall>b. b \<noteq> length s \<longrightarrow> s' ! b = (s @ [s ! data]) ! b"
    by simp_all
  have "take (length s) s' = s"
  proof (rule nth_equalityI)
    show "length (take (length s) s') = length s" using len by simp
    fix b assume "b < length (take (length s) s')"
    then have b: "b < length s" by simp
    with same have "s' ! b = (s @ [s ! data]) ! b" by simp
    with b show "take (length s) s' ! b = s ! b" by (simp add: nth_append)
  qed
  with run show ?thesis by (simp add: format_table_def copy_frame_def)
qed

lemma apply_op_tables:
  "take (length (tables st)) (tables (apply_op read_csv fmean upcast fstring op st)) = tables st"
proof (cases op)
  case Load
  then show ?thesis by (simp add: load_step_def split: prod.splits sum.splits)
next
  case (Summarize a)
  then show ?thesis by (simp add: kpi_step_def)
next
  case (ToScenarioRows a)
  then show ?thesis by (simp add: scenario_step_def)
next
  case (FormatTable a)
  have "tables (snd (format_step fstring st a)) = snd (format_table fstring (tables st) a)"
    by (simp add: format_step_def split: prod.splits)
  with FormatTable show ?thesis by (simp add: format_table_prefix)
qed

lemma apply_op_memo:
  "memo (apply_op read_csv fmean upcast fstring op st) =
     (if op = Load \<and> memo st = None
      then (case read_csv csv_path of Inl e \<Rightarrow> None | Inr df \<Rightarrow> Some df)
      else memo st)"
proof (cases op)
  case Load
  then show ?thesis
    by (auto simp: load_step_def load_data_cached_def load_data_def split: sum.splits)
next
  case (Summarize a)
  then show ?thesis by (simp add: kpi_step_def)
next
  case (ToScenarioRows a)
  then show ?thesis by (simp add: scenario_step_def)
next
  case (FormatTable a)
  then show ?thesis by (simp add: format_step_def split: prod.splits)
qed

lemma prefix_trans:
  assumes "take (length xs) ys = xs" and "take (length ys) zs = ys"
  shows "take (length xs) zs = xs"
proof -
  from assms(1) have "length (take (length xs) ys) = length xs" by simp
  then have "length xs \<le> length ys" by (simp add: min_def split: if_splits)
  then have "take (length xs) zs = take (length xs) (take (length ys) zs)" by simp
  with assms show ?thesis by simp
qed

lemma run_tables:
  "take (length (tables st)) (tables (run read_csv fmean upcast fstring ops st)) = tables st"
proof (induction ops arbitrary: st)
  case Nil
  then show ?case by (simp add: run_def)
next
  case (Cons op ops)
  let ?st1 = "apply_op read_csv fmean upcast fstring op st"
  have one: "take (length (tables st)) (tables ?st1) = tables st"
    by (rule apply_op_tables)
  have rest: "take (length (tables ?st1))
      (tables (run read_csv fmean upcast fstring ops ?st1)) = tables ?st1"
    by (rule Cons.IH)
  have "run read_csv fmean upcast fstring (op # ops) st =
        run read_csv fmean upcast fstring ops ?st1"
    by (simp add: run_def)
  with prefix_trans [OF one rest] show ?case by simp
qed

lemma run_memo:
  "memo (run read_csv fmean upcast fstring ops st) =
     (if Load \<in> set ops \<and> memo st = None
      then (case read_csv csv_path of Inl e \<Rightarrow> None | Inr df \<Rightarrow> Some df)
      else memo st)"
proof (induction ops arbitrary: st)
  case Nil
  then show ?case by (simp add: run_def)
next
  case (Cons op ops)
  let ?st1 = "apply_op read_csv fmean upcast fstring op st"
  have step: "run read_csv fmean upcast fstring (op # ops) st =
        run read_csv fmean upcast fstring ops ?st1"
    by (simp add: run_def)
  show ?case
    unfolding step Cons.IH apply_op_memo [of read_csv fmean upcast fstring op st]
    by (auto split: sum.splits)
qed

section \<open>The claims about the KPI row\<close>

text \<open>
  Claim C2 says that the company count of the summary is the number of records. The
  KPI card shows the literal 5, whatever the table holds: two records give 5.
\<close>

theorem company_count_counterexample:
  "kpi_metrics exact_mean portfolio2 =
     Inr \<lparr>company_count = 5, recommend_count = 1, avg_price = Num (7293 / 4),
          max_price = Num 3584, max_ticker = Str ''AMZN''\<rparr> \<and>
   length (rows portfolio2) = 2 \<and> (5::nat) \<noteq> 2"
  using kpi_portfolio2 by (simp add: portfolio2_def)

text \<open>
  Claim C2, amended: whenever the KPI row is computed, its company count is 5; it is
  the number of records exactly when the table has five rows.
\<close>

theorem company_count_is_literal_five:
  assumes "kpi_metrics fmean df = Inr s"
  shows "company_count s = 5 \<and>
         (company_count s = length (rows df) \<longleftrightarrow> length (rows df) = 5)"
proof -
  from assms have "company_count s = 5"
    by (auto simp: kpi_metrics_def split: sum.splits)
  then show ?thesis by auto
qed

theorem company_count_is_literal_five_witness:
  "kpi_metrics exact_mean portfolio2 =
     Inr \<lparr>company_count = 5, recommend_count = 1, avg_price = Num (7293 / 4),
          max_price = Num 3584, max_ticker = Str ''AMZN''\<rparr> \<and>
   company_count \<lparr>company_count = 5, recommend_count = 1, avg_price = Num (7293 / 4),
          max_price = Num 3584, max_ticker = Str ''AMZN''\<rparr> = 5"
  using company_count_is_literal_five [OF kpi_portfolio2] kpi_portfolio2 by simp




text \<open>
  Claim C7: for a non-empty table with numeric prices the KPI row returns, and the
  ticker it shows is that of a row \<open>i\<close> whose price is the maximum (no row has a larger
  price) and is the first such row (every earlier row has a strictly smaller price).
  The rows are taken in the order of the table as loaded; the sorted table built later
  for the bar chart plays no part.
\<close>

theorem max_ticker_first_maximum:
  assumes "priced df"
  shows "\<exists>s i. kpi_metrics fmean df = Inr s \<and> i < length (rows df) \<and>
           max_ticker s = cell_of (rows df ! i) ''Ticker'' \<and>
           max_price s = Num (price_of (rows df ! i)) \<and>
           (\<forall>j<length (rows df). price_of (rows df ! j) \<le> price_of (rows df ! i)) \<and>
           (\<forall>j<i. price_of (rows df ! j) < price_of (rows df ! i))"
proof -
  from kpi_metrics_priced [OF assms, of fmean] obtain i where
    i: "i < length (rows df)"
    and top: "\<forall>j<length (rows df). price_of (rows df ! j) \<le> price_of (rows df ! i)"
    and first: "\<forall>j<i. price_of (rows df ! j) < price_of (rows df ! i)"
    and kpi: "kpi_metrics fmean df = Inr \<lparr>company_count = 5,
       recommend_count =
         length (filter (\<lambda>r. cell_of r ''Split_Recommendation'' = Str ''YES'') (rows df)),
       avg_price = fmean (map price_of (rows df)),
       max_price = Num (Max (set (map price_of (rows df)))),
       max_ticker = cell_of (rows df ! i) ''Ticker''\<rparr>"
    by blast
  have "Max (set (map price_of (rows df))) = price_of (rows df ! i)"
  proof (rule Max_eqI)
    show "finite (set (map price_of (rows df)))" by simp
    show "price_of (rows df ! i) \<in> set (map price_of (rows df))" using i by simp
    fix y assume "y \<in> set (map price_of (rows df))"
    then obtain j where "j < length (rows df)" "y = price_of (rows df ! j)"
      by (auto simp: in_set_conv_nth)
    with top show "y \<le> price_of (rows df ! i)" by simp
  qed
  with kpi have "max_price (projr (kpi_metrics fmean df)) = Num (price_of (rows df ! i))"
    and "max_ticker (projr (kpi_metrics fmean df)) = cell_of (rows df ! i) ''Ticker''"
    and "kpi_metrics fmean df = Inr (projr (kpi_metrics fmean df))"
    by simp_all
  with i top first show ?thesis by blast
qed

text \<open>
  In \<open>tied_prices\<close> the second and third row share the highest price; the ticker shown
  is that of the second (see \<open>kpi_tied_prices\<close>).
\<close>

theorem max_ticker_first_maximum_witness:
  "priced tied_prices \<and>
   (\<exists>s i. kpi_metrics exact_mean tied_prices = Inr s \<and> i < length (rows tied_prices) \<and>
           max_ticker s = cell_of (rows tied_prices ! i) ''Ticker'' \<and>
           max_price s = Num (price_of (rows tied_prices ! i)) \<and>
           (\<forall>j<length (rows tied_prices).
              price_of (rows tied_prices ! j) \<le> price_of (rows tied_prices ! i)) \<and>
           (\<forall>j<i. price_of (rows tied_prices ! j) < price_of (rows tied_prices ! i)))"
proof -
  have p: "priced tied_prices"
    by (simp add: priced_def kpi_columns_def tied_prices_def table_defs)
  from p max_ticker_first_maximum [OF p, of exact_mean] show ?thesis by blast
qed




text \<open>
  Claim C10: the count of recommended records is the number of rows whose
  \<^verbatim>\<open>Split_Recommendation\<close> cell is the string \<^verbatim>\<open>YES\<close>. Whatever else the cells
  hold, the count is computed without an error as soon as the column exists; a cell such
  as \<^verbatim>\<open>yes\<close>, \<^verbatim>\<open>Y\<close>, a missing value or a number adds nothing to it.
\<close>

theorem recommend_count_exactly_yes:
  assumes "''Split_Recommendation'' \<in> set (columns df)"
  shows "recommend_count_of df =
           Inr (length (filter (\<lambda>r. cell_of r ''Split_Recommendation'' = Str ''YES'')
                  (rows df))) \<and>
         (\<forall>s. kpi_metrics fmean df = Inr s \<longrightarrow>
           recommend_count s =
             length (filter (\<lambda>r. cell_of r ''Split_Recommendation'' = Str ''YES'') (rows df)))"
  using recommend_count_of_present [OF assms]
  by (auto simp: kpi_metrics_def split: sum.splits)

theorem recommend_count_exactly_yes_witness:
  "''Split_Recommendation'' \<in> set (columns mixed_flags) \<and>
   recommend_count_of mixed_flags = Inr 1 \<and>
   map (\<lambda>r. cell_of r ''Split_Recommendation'') (rows mixed_flags) =
     [Str ''YES'', Str ''yes'', Str ''Y'', NaN, Num 1]"
proof -
  have c: "''Split_Recommendation'' \<in> set (columns mixed_flags)"
    by (simp add: mixed_flags_def schema_def)
  have cells: "map (\<lambda>r. cell_of r ''Split_Recommendation'') (rows mixed_flags) =
     [Str ''YES'', Str ''yes'', Str ''Y'', NaN, Num 1]"
    by (simp add: mixed_flags_def table_defs)
  have "length (filter (\<lambda>r. cell_of r ''Split_Recommendation'' = Str ''YES'')
          (rows mixed_flags)) = 1"
    by (simp add: mixed_flags_def table_defs)
  with recommend_count_exactly_yes [OF c, of exact_mean] c cells show ?thesis by simp
qed

section \<open>The claims about the scenario rows\<close>

text \<open>
  Claim C5: for every table that has the four columns the loop reads, the empty table
  included, the loop returns what the specification's \<open>toScenarioRows\<close> describes: a
  sequence of three times as many rows as the table has, in which positions \<open>3 i\<close>,
  \<open>3 i + 1\<close> and \<open>3 i + 2\<close> hold the Current, 10:1 Split and 20:1 Split row of the
  \<open>i\<close>-th record, as \<^verbatim>\<open>iterrows\<close> hands that record out.
\<close>

theorem comparison_data_three_per_record:
  assumes "set scenario_columns \<subseteq> set (columns df)"
  shows "comparison_data upcast df = Inr (toScenarioRows_spec (iterrows upcast df)) \<and>
         length (toScenarioRows_spec (iterrows upcast df)) = 3 * length (rows df) \<and>
         (\<forall>i<length (rows df).
            toScenarioRows_spec (iterrows upcast df) ! (3 * i) =
              \<lparr>Company = cell_of (iterrows upcast df ! i) ''Company'', Scenario = ''Current'',
               Price = cell_of (iterrows upcast df ! i) ''Price_USD''\<rparr> \<and>
            toScenarioRows_spec (iterrows upcast df) ! (3 * i + 1) =
              \<lparr>Company = cell_of (iterrows upcast df ! i) ''Company'',
               Scenario = ''10:1 Split'',
               Price = cell_of (iterrows upcast df ! i) ''Price_After_10to1''\<rparr> \<and>
            toScenarioRows_spec (iterrows upcast df) ! (3 * i + 2) =
              \<lparr>Company = cell_of (iterrows upcast df ! i) ''Company'',
               Scenario = ''20:1 Split'',
               Price = cell_of (iterrows upcast df ! i) ''Price_After_20to1''\<rparr>)"
proof -
  have "comparison_data upcast df = Inr (toScenarioRows_spec (iterrows upcast df))"
    using extend_rows_present [OF assms, of "iterrows upcast df" "[]"]
    by (simp add: comparison_data_def)
  then show ?thesis
    by (simp add: length_toScenarioRows_spec nth_toScenarioRows_spec_layout length_iterrows)
qed

theorem comparison_data_three_per_record_witness:
  "set scenario_columns \<subseteq> set (columns portfolio2) \<and>
   iterrows id portfolio2 = rows portfolio2 \<and>
   comparison_data id portfolio2 = Inr (toScenarioRows_spec (rows portfolio2)) \<and>
   length (toScenarioRows_spec (rows portfolio2)) = 3 * length (rows portfolio2) \<and>
   map Scenario (toScenarioRows_spec (rows portfolio2)) =
     [''Current'', ''10:1 Split'', ''20:1 Split'', ''Current'', ''10:1 Split'', ''20:1 Split''] \<and>
   comparison_data id header_only = Inr []"
proof -
  have c: "set scenario_columns \<subseteq> set (columns portfolio2)"
    by (simp add: scenario_columns_def portfolio2_def schema_def)
  have h: "set scenario_columns \<subseteq> set (columns header_only)"
    by (simp add: scenario_columns_def header_only_def schema_def)
  have r: "iterrows id portfolio2 = rows portfolio2"
    by (rule iterrows_object [OF portfolio2_object])
  have e: "toScenarioRows_spec (iterrows id header_only) = []"
    by (simp add: toScenarioRows_spec_def iterrows_def header_only_def)
  have s: "map Scenario (toScenarioRows_spec (rows portfolio2)) =
     [''Current'', ''10:1 Split'', ''20:1 Split'', ''Current'', ''10:1 Split'', ''20:1 Split'']"
    by (simp add: toScenarioRows_spec_def pivot_def portfolio2_def)
  note two = comparison_data_three_per_record [OF c, of id]
  note none = comparison_data_three_per_record [OF h, of id]
  have two1: "comparison_data id portfolio2 = Inr (toScenarioRows_spec (rows portfolio2))"
    using two [THEN conjunct1] unfolding r .
  have two2: "length (toScenarioRows_spec (rows portfolio2)) = 3 * length (rows portfolio2)"
    using two [THEN conjunct2, THEN conjunct1] unfolding r .
  have none1: "comparison_data id header_only = Inr []"
    using none [THEN conjunct1] unfolding e .
  from c r two1 two2 s none1 show ?thesis by (intro conjI)
qed

text \<open>
  Claim C1 says that the split prices are the price divided by 10 and by 20. The script
  never divides: it shows what the columns \<^verbatim>\<open>Price_After_10to1\<close> and
  \<^verbatim>\<open>Price_After_20to1\<close> of the file hold. A record with price 100 and split
  columns 7 and 3 is shown with 7 and 3.
\<close>

theorem split_prices_not_derived_counterexample:
  "comparison_data id stale_split =
     Inr [\<lparr>Company = Str ''Xco'', Scenario = ''Current'', Price = Num 100\<rparr>,
          \<lparr>Company = Str ''Xco'', Scenario = ''10:1 Split'', Price = Num 7\<rparr>,
          \<lparr>Company = Str ''Xco'', Scenario = ''20:1 Split'', Price = Num 3\<rparr>] \<and>
   (0::real) < 100 \<and>
   \<not> \<bar>(7::real) - 100 / 10\<bar> \<le> 1 / 10 ^ 9 \<and>
   \<not> \<bar>(3::real) - 100 / 20\<bar> \<le> 1 / 10 ^ 9"
  by (simp add: scenario_defs stale_split_def table_defs)

text \<open>
  Claim C1, amended: the script has no derive step and divides nowhere. For every
  record, the prices of its Current, 10:1 and 20:1 rows are the record's
  \<^verbatim>\<open>Price_USD\<close>, \<^verbatim>\<open>Price_After_10to1\<close> and \<^verbatim>\<open>Price_After_20to1\<close> cells
  as \<^verbatim>\<open>iterrows\<close> hands them out: the cells of the table unchanged when some
  column of the table holds a string (as the identifying columns of the schema do), and
  the cells converted to the common numeric dtype when every column is numeric.
\<close>

theorem split_prices_read_from_input:
  assumes "comparison_data upcast df = Inr out" and "i < length (rows df)"
  shows "Price (out ! (3 * i)) =
           (if all_numeric df then upcast_cell upcast (cell_of (rows df ! i) ''Price_USD'')
            else cell_of (rows df ! i) ''Price_USD'') \<and>
         Price (out ! (3 * i + 1)) =
           (if all_numeric df
            then upcast_cell upcast (cell_of (rows df ! i) ''Price_After_10to1'')
            else cell_of (rows df ! i) ''Price_After_10to1'') \<and>
         Price (out ! (3 * i + 2)) =
           (if all_numeric df
            then upcast_cell upcast (cell_of (rows df ! i) ''Price_After_20to1'')
            else cell_of (rows df ! i) ''Price_After_20to1'')"
proof -
  have i: "i < length (iterrows upcast df)"
    using assms(2) by (simp add: length_iterrows)
  have "out = toScenarioRows_spec (iterrows upcast df)"
    using assms(1) by (rule comparison_data_result)
  then show ?thesis
    by (simp add: nth_toScenarioRows_spec_layout [OF i] cell_of_iterrows [OF assms(2)])
qed

text \<open>
  The witness has the table of the counterexample, which holds strings, and the
  all-numeric table, whose int64 cell \<open>2^53 + 1\<close> is shown as the float64 \<open>2^53\<close>.
\<close>

theorem split_prices_read_from_input_witness:
  "comparison_data id stale_split =
     Inr [\<lparr>Company = Str ''Xco'', Scenario = ''Current'', Price = Num 100\<rparr>,
          \<lparr>Company = Str ''Xco'', Scenario = ''10:1 Split'', Price = Num 7\<rparr>,
          \<lparr>Company = Str ''Xco'', Scenario = ''20:1 Split'', Price = Num 3\<rparr>] \<and>
   (0::nat) < length (rows stale_split) \<and> \<not> all_numeric stale_split \<and>
   cell_of (rows stale_split ! 0) ''Price_After_10to1'' = Num 7 \<and>
   cell_of (rows stale_split ! 0) ''Price_After_20to1'' = Num 3 \<and>
   comparison_data to_float64_example numeric_only =
     Inr [\<lparr>Company = Num 1, Scenario = ''Current'', Price = Num 100\<rparr>,
          \<lparr>Company = Num 1, Scenario = ''10:1 Split'', Price = Num 9007199254740992\<rparr>,
          \<lparr>Company = Num 1, Scenario = ''20:1 Split'', Price = Num (1 / 2)\<rparr>] \<and>
   (0::nat) < length (rows numeric_only) \<and> all_numeric numeric_only \<and>
   cell_of (rows numeric_only ! 0) ''Price_After_10to1'' = Num 9007199254740993"
proof -
  have c: "comparison_data id stale_split =
     Inr [\<lparr>Company = Str ''Xco'', Scenario = ''Current'', Price = Num 100\<rparr>,
          \<lparr>Company = Str ''Xco'', Scenario = ''10:1 Split'', Price = Num 7\<rparr>,
          \<lparr>Company = Str ''Xco'', Scenario = ''20:1 Split'', Price = Num 3\<rparr>]"
    by (simp add: scenario_defs stale_split_def table_defs)
  have i: "(0::nat) < length (rows stale_split)" by (simp add: stale_split_def)
  have o: "\<not> all_numeric stale_split"
    by (simp add: all_numeric_def stale_split_def table_defs)
  have n: "comparison_data to_float64_example numeric_only =
     Inr [\<lparr>Company = Num 1, Scenario = ''Current'', Price = Num 100\<rparr>,
          \<lparr>Company = Num 1, Scenario = ''10:1 Split'', Price = Num 9007199254740992\<rparr>,
          \<lparr>Company = Num 1, Scenario = ''20:1 Split'', Price = Num (1 / 2)\<rparr>]"
    by (simp add: scenario_defs numeric_only_def scenario_columns_def cell_of_def
        to_float64_example_def)
  have j: "(0::nat) < length (rows numeric_only)" by (simp add: numeric_only_def)
  have a: "all_numeric numeric_only"
    by (simp add: all_numeric_def numeric_only_def scenario_columns_def cell_of_def)
  have "cell_of (rows stale_split ! 0) ''Price_After_10to1'' = Num 7"
    and "cell_of (rows stale_split ! 0) ''Price_After_20to1'' = Num 3"
    using split_prices_read_from_input [OF c i] o by simp_all
  moreover have "cell_of (rows numeric_only ! 0) ''Price_After_10to1'' = Num 9007199254740993"
    by (simp add: numeric_only_def cell_of_def)
  moreover note split_prices_read_from_input [OF n j]
  ultimately show ?thesis using c i o n j a by (intro conjI)
qed

text \<open>
  Claim C6 says that every record with a positive price has its 20:1 price below its
  10:1 price below its price. The three values come from the file unchecked: a record
  with price 100 and split columns 500 and 1000 is passed on as it is.
\<close>

theorem split_order_counterexample:
  "comparison_data id inverted_split =
     Inr [\<lparr>Company = Str ''Xco'', Scenario = ''Current'', Price = Num 100\<rparr>,
          \<lparr>Company = Str ''Xco'', Scenario = ''10:1 Split'', Price = Num 500\<rparr>,
          \<lparr>Company = Str ''Xco'', Scenario = ''20:1 Split'', Price = Num 1000\<rparr>] \<and>
   (0::real) < 100 \<and> \<not> ((1000::real) < 500 \<and> (500::real) < 100)"
  by (simp add: scenario_defs inverted_split_def table_defs)

text \<open>
  Claim C6, amended: for every record with a positive price whose split columns hold a
  tenth and a twentieth of the price, the three scenario rows carry numbers in the
  order 20:1 below 10:1 below Current. The record is taken as the loop reads it, that
  is as \<^verbatim>\<open>iterrows\<close> hands it out; for a table with a column of strings, as the
  schema's is, these are the cells of the table itself.
\<close>

theorem split_order_holds_when_input_divided:
  assumes "comparison_data upcast df = Inr out" and "i < length (rows df)"
    and "cell_of (iterrows upcast df ! i) ''Price_USD'' = Num p" and "0 < p"
    and "cell_of (iterrows upcast df ! i) ''Price_After_10to1'' = Num (p / 10)"
    and "cell_of (iterrows upcast df ! i) ''Price_After_20to1'' = Num (p / 20)"
  shows "\<exists>a b c. Price (out ! (3 * i)) = Num a \<and> Price (out ! (3 * i + 1)) = Num b \<and>
           Price (out ! (3 * i + 2)) = Num c \<and> c < b \<and> b < a"
proof -
  have i: "i < length (iterrows upcast df)"
    using assms(2) by (simp add: length_iterrows)
  have "out = toScenarioRows_spec (iterrows upcast df)"
    using assms(1) by (rule comparison_data_result)
  then have "Price (out ! (3 * i)) = Num p" "Price (out ! (3 * i + 1)) = Num (p / 10)"
    "Price (out ! (3 * i + 2)) = Num (p / 20)"
    using assms(3,5,6) by (simp_all add: nth_toScenarioRows_spec_layout [OF i])
  moreover from assms(4) have "p / 20 < p / 10" "p / 10 < p" by simp_all
  ultimately show ?thesis by blast
qed

theorem split_order_holds_when_input_divided_witness:
  "(1::nat) < length (rows portfolio2) \<and> iterrows id portfolio2 = rows portfolio2 \<and>
   cell_of (rows portfolio2 ! 1) ''Price_USD'' = Num (125 / 2) \<and> (0::real) < 125 / 2 \<and>
   cell_of (rows portfolio2 ! 1) ''Price_After_10to1'' = Num (125 / 2 / 10) \<and>
   cell_of (rows portfolio2 ! 1) ''Price_After_20to1'' = Num (125 / 2 / 20) \<and>
   (\<exists>a b c. map Price (drop 3 (projr (comparison_data id portfolio2))) = [Num a, Num b, Num c] \<and>
      c < b \<and> b < a)"
proof -
  have i: "(1::nat) < length (rows portfolio2)" by (simp add: portfolio2_def)
  have r: "iterrows id portfolio2 = rows portfolio2"
    by (rule iterrows_object [OF portfolio2_object])
  have p: "cell_of (rows portfolio2 ! 1) ''Price_USD'' = Num (125 / 2)"
    by (simp add: portfolio2_def table_defs)
  have p10: "cell_of (rows portfolio2 ! 1) ''Price_After_10to1'' = Num (125 / 2 / 10)"
    by (simp add: portfolio2_def table_defs)
  have p20: "cell_of (rows portfolio2 ! 1) ''Price_After_20to1'' = Num (125 / 2 / 20)"
    by (simp add: portfolio2_def table_defs)
  have pos: "(0::real) < 125 / 2" by simp
  note order = split_order_holds_when_input_divided
    [of id portfolio2 _ 1 "125 / 2", OF comparison_portfolio2 i p [folded r] pos
       p10 [folded r] p20 [folded r]]
  then have "\<exists>a b c. map Price (drop 3 (projr (comparison_data id portfolio2))) =
      [Num a, Num b, Num c] \<and> c < b \<and> b < a"
    by (simp add: comparison_portfolio2)
  with i r p p10 p20 pos show ?thesis by (intro conjI)
qed

section \<open>The claims about loading and about state\<close>




text \<open>
  Claim C9 says that no operation changes its input table or any state of the process.
  Loading is memoised by \<^verbatim>\<open>@st.cache_data\<close>: in a process that has not loaded
  yet, the first successful call writes the table into the cache of the process.
\<close>

theorem load_fills_cache_counterexample:
  "memo fresh_process = None \<and>
   memo (snd (load_step file_portfolio2 fresh_process)) = Some portfolio2"
  by (simp add: fresh_process_def load_step_def load_data_cached_def load_data_def
      file_portfolio2_def)

text \<open>
  Claim C9, amended: no operation, and no sequence of operations, changes a table that
  existed before it: the tables held before are the first tables held afterwards, each
  at its address and with its contents. Loading adds a table, the detail table adds the
  copy it formats, and the KPI row and the scenario loop change nothing at all. The
  memo cache of the process is written by loading alone: after any sequence of
  operations it is what it was, unless it was empty and the sequence loads, and then it
  holds the table read if the read succeeded and stays empty if not.
\<close>

theorem operations_keep_tables_and_only_load_fills_cache:
  "take (length (tables st)) (tables (run read_csv fmean upcast fstring ops st)) = tables st \<and>
   (\<forall>a<length (tables st).
      tables (run read_csv fmean upcast fstring ops st) ! a = tables st ! a) \<and>
   memo (run read_csv fmean upcast fstring ops st) =
     (if Load \<in> set ops \<and> memo st = None
      then (case read_csv csv_path of Inl e \<Rightarrow> None | Inr df \<Rightarrow> Some df)
      else memo st) \<and>
   snd (kpi_step fmean st data) = st \<and>
   snd (scenario_step upcast st data) = st"
proof -
  have prefix:
    "take (length (tables st)) (tables (run read_csv fmean upcast fstring ops st)) = tables st"
    by (rule run_tables)
  have each: "\<forall>a<length (tables st).
      tables (run read_csv fmean upcast fstring ops st) ! a = tables st ! a"
  proof (intro allI impI)
    fix a assume a: "a < length (tables st)"
    then have "take (length (tables st)) (tables (run read_csv fmean upcast fstring ops st)) ! a =
               tables (run read_csv fmean upcast fstring ops st) ! a"
      by simp
    with prefix show "tables (run read_csv fmean upcast fstring ops st) ! a = tables st ! a"
      by simp
  qed
  have cache: "memo (run read_csv fmean upcast fstring ops st) =
     (if Load \<in> set ops \<and> memo st = None
      then (case read_csv csv_path of Inl e \<Rightarrow> None | Inr df \<Rightarrow> Some df)
      else memo st)"
    by (rule run_memo)
  have kpi: "snd (kpi_step fmean st data) = st" by (simp add: kpi_step_def)
  have loop: "snd (scenario_step upcast st data) = st" by (simp add: scenario_step_def)
  from prefix each cache kpi loop show ?thesis by (intro conjI)
qed

text \<open>
  The witness is the second run of \<^verbatim>\<open>main\<close> in a process whose first run has
  loaded the scenario's table, over a file that has changed since: the load is answered
  from the cache, the table of the first run and the new \<^verbatim>\<open>data\<close> stay as they
  are, and the templates are written into the copy at address 2.
\<close>

theorem operations_keep_tables_and_only_load_fills_cache_witness:
  "length (tables loaded_once) = 1 \<and>
   length (tables (run file_without_pe exact_mean id echo_template rerun loaded_once)) = 3 \<and>
   tables (run file_without_pe exact_mean id echo_template rerun loaded_once) ! 0 = portfolio2 \<and>
   tables (run file_without_pe exact_mean id echo_template rerun loaded_once) ! 1 = portfolio2 \<and>
   map (\<lambda>r. cell_of r ''Price_USD'')
     (rows (tables (run file_without_pe exact_mean id echo_template rerun loaded_once) ! 2)) =
     [Str ''${x:,.2f}'', Str ''${x:,.2f}''] \<and>
   memo (run file_without_pe exact_mean id echo_template rerun loaded_once) = Some portfolio2"
proof -
  let ?end = "run file_without_pe exact_mean id echo_template rerun loaded_once"
  have n: "length (tables loaded_once) = 1" by (simp add: loaded_once_def)
  have steps: "?end = snd (format_step echo_template
      \<lparr>memo = Some portfolio2, tables = [portfolio2, portfolio2]\<rparr> 1)"
    by (simp add: run_def rerun_def loaded_once_def load_step_def load_data_cached_def
        kpi_step_def scenario_step_def)
  have len: "length (tables ?end) = 3"
    unfolding steps
    by (simp add: format_step_def format_table_def copy_frame_def display_formats_def
        format_column_def getitem_def setitem_def echo_template_def portfolio2_def table_defs
        split: prod.splits)
  have data: "tables ?end ! 1 = portfolio2"
    unfolding steps
    by (simp add: format_step_def format_table_def copy_frame_def display_formats_def
        format_column_def getitem_def setitem_def echo_template_def portfolio2_def table_defs
        split: prod.splits)
  have copy: "map (\<lambda>r. cell_of r ''Price_USD'') (rows (tables ?end ! 2)) =
     [Str ''${x:,.2f}'', Str ''${x:,.2f}'']"
    unfolding steps
    by (simp add: format_step_def format_table_def copy_frame_def display_formats_def
        format_column_def getitem_def setitem_def echo_template_def portfolio2_def table_defs
        split: prod.splits)
  note all = operations_keep_tables_and_only_load_fills_cache
    [of loaded_once file_without_pe exact_mean id echo_template rerun 0]
  have first: "\<forall>a<length (tables loaded_once). tables ?end ! a = tables loaded_once ! a"
    using all by (rule conjunct1 [OF conjunct2])
  have cache: "memo ?end =
     (if Load \<in> set rerun \<and> memo loaded_once = None
      then (case file_without_pe csv_path of Inl e \<Rightarrow> None | Inr df \<Rightarrow> Some df)
      else memo loaded_once)"
    using all by (rule conjunct1 [OF conjunct2 [OF conjunct2]])
  from first n have t0: "tables ?end ! 0 = portfolio2" by (simp add: loaded_once_def)
  from cache have m: "memo ?end = Some portfolio2" by (simp add: loaded_once_def)
  from n len t0 data copy m show ?thesis by (intro conjI)
qed

end
